theory Spec2Isabelle
  imports Complex_Main
begin

section \<open>The availability selector of \<open>ServiceAvailability.tsx\<close>\<close>

text \<open>
  The component keeps its data in React state cells and changes them in event handlers and
  in two effects. The embedding makes every cell a field of the record \<open>state\<close>, every
  handler a function from state to state, and every asynchronous effect two functions: the
  part that runs before the \<open>await\<close> and the continuation that runs when the request
  settles.
\<close>

subsection \<open>Data\<close>

text \<open>
  An instant is a number of milliseconds, as the time value of a JavaScript \<open>Date\<close> is,
  counted on the local time line: the zone is taken to have a fixed offset, so that local
  midnights are the multiples of a day and comparing local values is comparing instants.
  \<open>new Date(s)\<close> of an unparsable string is the Invalid Date.
\<close>

type_synonym instant = int

datatype jsdate = Date instant | InvalidDate

text \<open>
  \<open>SlotRow\<close>: the columns \<open>id, start_time, end_time, is_booked, slot_price, resource_id\<close>
  picked from the \<open>slots\<close> table. A price is a number or \<open>null\<close>; numbers are exact
  rationals here (the rounding of binary floating point is not modelled). \<open>is_booked\<close> is
  read only through its truthiness.
\<close>

record slot_row =
  slot_id :: string
  start_time :: instant
  end_time :: instant
  is_booked :: bool
  slot_price :: "rat option"
  resource_id :: string

text \<open>
  \<open>Resource\<close>: the columns of \<open>business_resources\<close>. The sibling list holds \<open>id, name\<close>;
  the starting resource is fetched with its \<open>business_id\<close> as well.
\<close>

record resource_row =
  r_id :: string
  r_name :: string

record initial_resource = resource_row +
  business_id :: string

text \<open>The state cells of the component, one field for each \<open>useState\<close>.\<close>

record state =
  selectedDate :: "jsdate option"
  initialResourceId :: "string option"
  resources :: "resource_row list"
  selectedResourceId :: "string option"
  selectedResourceName :: string
  loadingResources :: bool
  slots :: "slot_row list"
  loadingSlots :: bool
  error :: "string option"
  selectedSlotIds :: "string set"

subsection \<open>JavaScript truthiness and \<open>||\<close>\<close>

text \<open>A string that may be \<open>undefined\<close> is truthy when it is defined and not empty.\<close>

definition truthy :: "string option \<Rightarrow> bool" where
  "truthy v = (case v of None \<Rightarrow> False | Some s \<Rightarrow> s \<noteq> [])"

text \<open>\<open>a || b\<close> on such strings.\<close>

definition or_else :: "string option \<Rightarrow> string option \<Rightarrow> string option" where
  "or_else a b = (if truthy a then a else b)"

text \<open>\<open>s.slot_price || 0\<close>: a \<open>null\<close> price and the falsy number \<open>0\<close> both give \<open>0\<close>.\<close>

definition price_or_zero :: "rat option \<Rightarrow> rat" where
  "price_or_zero p = (case p of None \<Rightarrow> 0 | Some x \<Rightarrow> if x = 0 then 0 else x)"

subsection \<open>The derived total\<close>

text \<open>
  \<^verbatim>\<open>slots.filter((s) => selected.has(s.id)).reduce((sum, s) => sum + (s.slot_price || 0), 0)\<close>
  where \<open>selected\<close> is a copy of the selection set: a left fold from \<open>0\<close> over the
  filtered list.
\<close>

definition total :: "slot_row list \<Rightarrow> string set \<Rightarrow> rat" where
  "total slts selected =
     foldl (\<lambda>sum s. sum + price_or_zero (slot_price s)) 0
       (filter (\<lambda>s. slot_id s \<in> selected) slts)"

subsection \<open>Toggling a row\<close>

text \<open>
  \<^verbatim>\<open>if (slot.is_booked) return;
  setSelectedSlotIds((prev) => { const next = new Set(prev);
    if (next.has(slot.id)) next.delete(slot.id); else next.add(slot.id); return next; })\<close>
  The selection is a set of identifiers; the order in which a JavaScript \<open>Set\<close> iterates
  is not part of it.
\<close>

definition toggleSelect :: "slot_row \<Rightarrow> state \<Rightarrow> state" where
  "toggleSelect slot st =
     (if is_booked slot then st
      else st\<lparr>selectedSlotIds :=
        (let prev = selectedSlotIds st in
         if slot_id slot \<in> prev then prev - {slot_id slot} else insert (slot_id slot) prev)\<rparr>)"

subsection \<open>Day boundaries (\<open>date-fns\<close>) and \<open>toISOString\<close>\<close>

text \<open>
  \<open>startOfDay\<close> sets the local clock of a date to 00:00:00.000 and \<open>endOfDay\<close> sets it to
  23:59:59.999, the last millisecond of the same day; both keep an Invalid Date invalid.
\<close>

definition startOfDay :: "jsdate \<Rightarrow> jsdate" where
  "startOfDay d = (case d of InvalidDate \<Rightarrow> InvalidDate | Date t \<Rightarrow> Date (t - t mod 86400000))"

definition endOfDay :: "jsdate \<Rightarrow> jsdate" where
  "endOfDay d =
     (case d of InvalidDate \<Rightarrow> InvalidDate | Date t \<Rightarrow> Date (t - t mod 86400000 + 86399999))"

text \<open>
  A thrown value, as the \<open>catch\<close> blocks read it: \<open>e instanceof Error ? e.message : fallback\<close>.
\<close>

datatype thrown = ErrorObj string | NotAnError

definition message_of :: "thrown \<Rightarrow> string \<Rightarrow> string" where
  "message_of e fallback = (case e of ErrorObj m \<Rightarrow> m | NotAnError \<Rightarrow> fallback)"

text \<open>\<open>toISOString\<close> throws a \<open>RangeError\<close> on the Invalid Date.\<close>

definition toISOString :: "jsdate \<Rightarrow> thrown + instant" where
  "toISOString d = (case d of InvalidDate \<Rightarrow> Inl (ErrorObj ''Invalid time value'') | Date t \<Rightarrow> Inr t)"

subsection \<open>The record store\<close>

text \<open>
  What a query of the generated client settles to: \<open>Failure e\<close> when the \<open>error\<close> field is
  set (the code throws it) or the promise rejects, otherwise \<open>Data d\<close> with \<open>d\<close> the \<open>data\<close>
  field, which may be \<open>null\<close>.
\<close>

datatype 'a response = Failure thrown | Data "'a option"

text \<open>
  The slot query that \<open>loadSlots\<close> builds:
  \<^verbatim>\<open>.eq("resource_id", selectedResourceId).gte("start_time", start.toISOString())
  .lt("start_time", end.toISOString()).order("start_time", { ascending: true })\<close>
\<close>

record slots_query =
  eq_resource_id :: string
  gte_start_time :: instant
  lt_start_time :: instant

definition slots_request :: "string \<Rightarrow> jsdate \<Rightarrow> thrown + slots_query" where
  "slots_request rid d =
     (case toISOString (startOfDay d) of
        Inl e \<Rightarrow> Inl e
      | Inr a \<Rightarrow>
          (case toISOString (endOfDay d) of
             Inl e \<Rightarrow> Inl e
           | Inr b \<Rightarrow> Inr \<lparr>eq_resource_id = rid, gte_start_time = a, lt_start_time = b\<rparr>))"

text \<open>The rows of a table that the filters of a query keep, in the order it asks for.\<close>

definition matches :: "slots_query \<Rightarrow> slot_row \<Rightarrow> bool" where
  "matches q s =
     (resource_id s = eq_resource_id q \<and> gte_start_time q \<le> start_time s
      \<and> start_time s < lt_start_time q)"

definition select_slots :: "slot_row list \<Rightarrow> slots_query \<Rightarrow> slot_row list" where
  "select_slots table q = sort_key start_time (filter (matches q) table)"

text \<open>
  The interval of the specification, for comparison with the query:
  \<open>[startOfDay(date), startOfDay(date + 1))\<close>, from the local midnight of the day up to,
  and not including, the local midnight of the following day.
\<close>

definition spec_day_interval :: "instant \<Rightarrow> instant \<Rightarrow> bool" where
  "spec_day_interval t x =
     (t - t mod 86400000 \<le> x \<and> x < (t + 86400000) - (t + 86400000) mod 86400000)"

subsection \<open>The slot loader\<close>

text \<open>
  A call of \<open>loadSlots\<close> that is waiting for the store: its query, and what its closure
  captured (the date and the resource list of the render that started it).
\<close>

record slot_fetch =
  query :: slots_query
  captured_date :: jsdate
  captured_resources :: "resource_row list"

text \<open>
  \<open>loadSlots\<close> up to its \<open>await\<close>. The guard returns before anything is set. After it the
  loading flag is raised, the message cleared and the selection reset; a date whose
  \<open>toISOString\<close> throws is caught at once (message set, flag lowered in \<open>finally\<close>) and no
  request leaves.
\<close>

definition loadSlots_begin :: "state \<Rightarrow> state \<times> slot_fetch option" where
  "loadSlots_begin st =
     (if \<not> truthy (selectedResourceId st) \<or> selectedDate st = None then (st, None)
      else
        (case (selectedResourceId st, selectedDate st) of
           (Some rid, Some d) \<Rightarrow>
             (let st1 = st\<lparr>loadingSlots := True, error := None, selectedSlotIds := {}\<rparr> in
              case slots_request rid d of
                Inl e \<Rightarrow>
                  (st1\<lparr>error := Some (message_of e ''Failed to load slots''),
                       loadingSlots := False\<rparr>, None)
              | Inr q \<Rightarrow>
                  (st1, Some \<lparr>query = q, captured_date = d, captured_resources = resources st\<rparr>))
         | _ \<Rightarrow> (st, None)))"

text \<open>
  The rest of \<open>loadSlots\<close>, run when the request settles:
  \<^verbatim>\<open>if (serr) throw serr; setSlots(data || []);
  const r = resources.find((x) => x.id === selectedResourceId); if (r) setSelectedResourceName(r.name);\<close>
  with the \<open>catch\<close> that sets the message and the \<open>finally\<close> that lowers the flag. Nothing
  here looks at the current resource or date.
\<close>

definition loadSlots_settle :: "slot_fetch \<Rightarrow> slot_row list response \<Rightarrow> state \<Rightarrow> state" where
  "loadSlots_settle f resp st =
     (case resp of
        Failure e \<Rightarrow>
          st\<lparr>error := Some (message_of e ''Failed to load slots''), loadingSlots := False\<rparr>
      | Data d \<Rightarrow>
          (let st1 = st\<lparr>slots := (case d of None \<Rightarrow> [] | Some rows \<Rightarrow> rows)\<rparr>;
               st2 = (case find (\<lambda>x. r_id x = eq_resource_id (query f)) (captured_resources f) of
                        None \<Rightarrow> st1
                      | Some r \<Rightarrow> st1\<lparr>selectedResourceName := r_name r\<rparr>)
           in st2\<lparr>loadingSlots := False\<rparr>))"

subsection \<open>Choosing a venue or a day\<close>

text \<open>
  \<open>onValueChange={(value) => setSelectedResourceId(value)}\<close>: a value equal to the current
  one changes no state cell, so no effect runs; otherwise the slot effect runs on the new
  state. \<open>onSelect={(d) => d && setSelectedDate(d)}\<close>: an undefined day is ignored; a day is
  a new \<open>Date\<close> object, so the slot effect runs.
\<close>

definition pick_venue :: "string \<Rightarrow> state \<Rightarrow> state \<times> slot_fetch option" where
  "pick_venue v st =
     (if selectedResourceId st = Some v then (st, None)
      else loadSlots_begin (st\<lparr>selectedResourceId := Some v\<rparr>))"

definition pick_day :: "instant option \<Rightarrow> state \<Rightarrow> state \<times> slot_fetch option" where
  "pick_day d st =
     (case d of
        None \<Rightarrow> (st, None)
      | Some t \<Rightarrow> loadSlots_begin (st\<lparr>selectedDate := Some (Date t)\<rparr>))"

subsection \<open>The resource resolver\<close>

text \<open>
  \<open>loadResources\<close> has two awaits. Before the first: the guard on the starting resource,
  the loading flag and the cleared message.
\<close>

definition loadResources_begin :: "state \<Rightarrow> state \<times> bool" where
  "loadResources_begin st =
     (if \<not> truthy (initialResourceId st) then (st, False)
      else (st\<lparr>loadingResources := True, error := None\<rparr>, True))"

text \<open>
  When the starting resource arrives: an error or no row ends the call with a message;
  a row sets the resource name and the sibling query leaves.
\<close>

definition resource_settled ::
  "initial_resource response \<Rightarrow> state \<Rightarrow> state \<times> initial_resource option" where
  "resource_settled resp st =
     (case resp of
        Failure e \<Rightarrow>
          (st\<lparr>error := Some (message_of e ''Failed to load resources''),
              loadingResources := False\<rparr>, None)
      | Data None \<Rightarrow>
          (st\<lparr>error := Some ''Resource not found'', loadingResources := False\<rparr>, None)
      | Data (Some r) \<Rightarrow> (st\<lparr>selectedResourceName := r_name r\<rparr>, Some r))"

text \<open>
  When the siblings arrive:
  \<^verbatim>\<open>setResources(siblings || []); setSelectedResourceId((prev) => prev || initialRes.id);\<close>
\<close>

definition siblings_settled ::
  "initial_resource \<Rightarrow> resource_row list response \<Rightarrow> state \<Rightarrow> state" where
  "siblings_settled initialRes resp st =
     (case resp of
        Failure e \<Rightarrow>
          st\<lparr>error := Some (message_of e ''Failed to load resources''), loadingResources := False\<rparr>
      | Data d \<Rightarrow>
          st\<lparr>resources := (case d of None \<Rightarrow> [] | Some rs \<Rightarrow> rs),
             selectedResourceId := or_else (selectedResourceId st) (Some (r_id initialRes)),
             loadingResources := False\<rparr>)"

subsection \<open>The component as a transition system\<close>

text \<open>
  A configuration is the state cells together with the calls that are waiting for the
  store: the slot fetches in flight, oldest first, and the stage of the one call of
  \<open>loadResources\<close> (its effect depends on \<open>initialResourceId\<close> alone, which never changes).
\<close>

datatype res_stage = ResIdle | AwaitResource | AwaitSiblings initial_resource

record config =
  ui :: state
  in_flight :: "slot_fetch list"
  stage :: res_stage

text \<open>The slot effect, run on a configuration: a request that leaves joins the queue.\<close>

definition run_loadSlots :: "state \<times> slot_fetch option \<Rightarrow> config \<Rightarrow> config" where
  "run_loadSlots r c =
     c\<lparr>ui := fst r,
       in_flight := in_flight c @ (case snd r of None \<Rightarrow> [] | Some f \<Rightarrow> [f])\<rparr>"

text \<open>
  What can happen: the user picks a venue (the control is disabled while the resources
  load), picks a day, or clicks the row with a given index (rows are rendered, with their
  click handler, only while the slots are not loading); a slot fetch in flight settles;
  the starting resource or the sibling list arrives. Updates made in one continuation
  are applied together, and the slot effect runs once afterwards when one of
  \<open>selectedResourceId\<close>, \<open>selectedDate\<close>, \<open>resources\<close> changed.
\<close>

datatype event =
    PickVenue string
  | PickDay "instant option"
  | ClickRow nat
  | SlotsSettled nat "slot_row list response"
  | ResourceSettled "initial_resource response"
  | SiblingsSettled "resource_row list response"

fun step :: "event \<Rightarrow> config \<Rightarrow> config option" where
  "step (PickVenue v) c =
     (if loadingResources (ui c) then None
      else Some (run_loadSlots (pick_venue v (ui c)) c))"
| "step (PickDay d) c = Some (run_loadSlots (pick_day d (ui c)) c)"
| "step (ClickRow i) c =
     (if \<not> loadingSlots (ui c) \<and> i < length (slots (ui c))
      then Some (c\<lparr>ui := toggleSelect (slots (ui c) ! i) (ui c)\<rparr>)
      else None)"
| "step (SlotsSettled i resp) c =
     (if i < length (in_flight c)
      then Some (c\<lparr>ui := loadSlots_settle (in_flight c ! i) resp (ui c),
                    in_flight := take i (in_flight c) @ drop (Suc i) (in_flight c)\<rparr>)
      else None)"
| "step (ResourceSettled resp) c =
     (case stage c of
        AwaitResource \<Rightarrow>
          (let r = resource_settled resp (ui c) in
           Some (c\<lparr>ui := fst r,
                   stage := (case snd r of None \<Rightarrow> ResIdle | Some x \<Rightarrow> AwaitSiblings x)\<rparr>))
      | _ \<Rightarrow> None)"
| "step (SiblingsSettled resp) c =
     (case stage c of
        AwaitSiblings x \<Rightarrow>
          (let st = siblings_settled x resp (ui c) in
           case resp of
             Failure e \<Rightarrow> Some (c\<lparr>ui := st, stage := ResIdle\<rparr>)
           | Data d \<Rightarrow> Some (run_loadSlots (loadSlots_begin st) (c\<lparr>stage := ResIdle\<rparr>)))
      | _ \<Rightarrow> None)"

fun run :: "event list \<Rightarrow> config \<Rightarrow> config option" where
  "run [] c = Some c"
| "run (e # es) c = (case step e c of None \<Rightarrow> None | Some c' \<Rightarrow> run es c')"

text \<open>
  The first render. The starting resource is \<open>props.initialResourceId || urlResourceId\<close>,
  the date is the one the props or the URL give, else now. Both effects run on mount,
  \<open>loadResources\<close> first.
\<close>

definition init_state :: "string option \<Rightarrow> string option \<Rightarrow> jsdate \<Rightarrow> state" where
  "init_state props_id url_id d =
     \<lparr>selectedDate = Some d,
      initialResourceId = or_else props_id (or_else url_id None),
      resources = [],
      selectedResourceId = or_else props_id (or_else url_id None),
      selectedResourceName = [],
      loadingResources = False,
      slots = [],
      loadingSlots = False,
      error = None,
      selectedSlotIds = {}\<rparr>"

definition init_config :: "string option \<Rightarrow> string option \<Rightarrow> jsdate \<Rightarrow> config" where
  "init_config props_id url_id d =
     (let r = loadResources_begin (init_state props_id url_id d) in
      run_loadSlots (loadSlots_begin (fst r))
        \<lparr>ui = fst r, in_flight = [], stage = (if snd r then AwaitResource else ResIdle)\<rparr>)"

text \<open>
  The invariant the specification asks of the selection: each member is the identifier of
  a slot of the current list that is not booked.
\<close>

definition selection_valid :: "state \<Rightarrow> bool" where
  "selection_valid st =
     (\<forall>x \<in> selectedSlotIds st. \<exists>s \<in> set (slots st). slot_id s = x \<and> \<not> is_booked s)"

text \<open>
  A run in which slot fetches never overlap: before and after each of its steps at most
  one fetch is in flight.
\<close>

fun overlap_free :: "event list \<Rightarrow> config \<Rightarrow> bool" where
  "overlap_free [] c = (length (in_flight c) \<le> 1)"
| "overlap_free (e # es) c =
     (length (in_flight c) \<le> 1 \<and>
      (case step e c of None \<Rightarrow> True | Some c' \<Rightarrow> overlap_free es c'))"

text \<open>
  What holds of a configuration as long as slot fetches do not overlap: the selection is
  valid; while a fetch is in flight the list is flagged as loading and nothing is selected;
  and no fetch is in flight for an Invalid Date.
\<close>

definition quiet :: "config \<Rightarrow> bool" where
  "quiet c =
     (selection_valid (ui c)
      \<and> (in_flight c \<noteq> [] \<longrightarrow> loadingSlots (ui c) \<and> selectedSlotIds (ui c) = {})
      \<and> (selectedDate (ui c) = Some InvalidDate \<longrightarrow> in_flight c = []))"

text \<open>
  The venue control offers the identifiers of the fetched resource rows, which are keys
  of the store and not empty: a run whose venue picks all carry a non-empty identifier.
\<close>

fun venues_named :: "event list \<Rightarrow> bool" where
  "venues_named [] = True"
| "venues_named (PickVenue v # es) = (v \<noteq> [] \<and> venues_named es)"
| "venues_named (e # es) = venues_named es"

text \<open>
  What such runs keep: a date is always set, and as long as no venue is set nothing has
  been fetched, shown or selected.
\<close>

definition unvenued_empty :: "config \<Rightarrow> bool" where
  "unvenued_empty c =
     (selectedDate (ui c) \<noteq> None
      \<and> (truthy (selectedResourceId (ui c))
          \<or> (selectedSlotIds (ui c) = {} \<and> slots (ui c) = [] \<and> in_flight c = [])))"

subsection \<open>Sample data\<close>

text \<open>
  Two free slots of venue \<open>R1\<close> on two consecutive days, 11 and 12 November 2025 at nine
  o'clock, and a booked one.
\<close>

definition slot_a :: slot_row where
  "slot_a = \<lparr>slot_id = ''a'', start_time = 1762851600000, end_time = 1762855200000,
             is_booked = False, slot_price = Some 40, resource_id = ''R1''\<rparr>"

definition slot_b :: slot_row where
  "slot_b = \<lparr>slot_id = ''b'', start_time = 1762938000000, end_time = 1762941600000,
             is_booked = False, slot_price = Some (25 / 2), resource_id = ''R1''\<rparr>"

definition slot_booked :: slot_row where
  "slot_booked = \<lparr>slot_id = ''c'', start_time = 1762855200000, end_time = 1762858800000,
             is_booked = True, slot_price = Some 40, resource_id = ''R1''\<rparr>"

definition slot_unpriced :: slot_row where
  "slot_unpriced = \<lparr>slot_id = ''n'', start_time = 1762858800000, end_time = 1762862400000,
             is_booked = False, slot_price = None, resource_id = ''R1''\<rparr>"

text \<open>A slot that starts in the last millisecond of 11 November 2025.\<close>

definition slot_late :: slot_row where
  "slot_late = \<lparr>slot_id = ''z'', start_time = 1762905599999, end_time = 1762909199999,
             is_booked = False, slot_price = Some 40, resource_id = ''R1''\<rparr>"

text \<open>The component opened on venue \<open>R1\<close> and 11 November 2025.\<close>

definition opened :: config where
  "opened = init_config (Some ''R1'') None (Date 1762819200000)"

text \<open>A state that shows \<open>slot_a\<close> and \<open>slot_booked\<close>, the first of them selected.\<close>

definition showing :: state where
  "showing = (init_state (Some ''R1'') None (Date 1762819200000))
     \<lparr>slots := [slot_a, slot_booked], selectedSlotIds := {''a''}\<rparr>"

text \<open>The starting resource \<open>R1\<close> and its siblings, ordered by name.\<close>

definition court_a :: initial_resource where
  "court_a = \<lparr>r_id = ''R1'', r_name = ''Court A'', business_id = ''B1''\<rparr>"

definition siblings :: "resource_row list" where
  "siblings = [\<lparr>r_id = ''R1'', r_name = ''Court A''\<rparr>, \<lparr>r_id = ''R2'', r_name = ''Court B''\<rparr>]"

text \<open>The fetches that \<open>loadSlots\<close> starts for venue \<open>R1\<close> on 11 and on 12 November 2025.\<close>

definition fetch_11 :: slot_fetch where
  "fetch_11 =
     \<lparr>query = \<lparr>eq_resource_id = ''R1'', gte_start_time = 1762819200000,
                lt_start_time = 1762905599999\<rparr>,
      captured_date = Date 1762819200000, captured_resources = []\<rparr>"

definition fetch_12 :: slot_fetch where
  "fetch_12 =
     \<lparr>query = \<lparr>eq_resource_id = ''R1'', gte_start_time = 1762905600000,
                lt_start_time = 1762991999999\<rparr>,
      captured_date = Date 1762905600000, captured_resources = []\<rparr>"

text \<open>
  Configurations reached from \<open>opened\<close>: after the fetch for the 11th brought \<open>slot_a\<close> and
  \<open>slot_booked\<close> and the first row was clicked; and after a change to the 12th whose fetch
  settled before the one for the 11th did.
\<close>

definition chosen :: config where
  "chosen = \<lparr>ui = showing\<lparr>loadingResources := True\<rparr>, in_flight = [], stage = AwaitResource\<rparr>"

definition raced :: config where
  "raced =
     \<lparr>ui = (init_state (Some ''R1'') None (Date 1762819200000))
        \<lparr>loadingResources := True, selectedDate := Some (Date 1762905600000),
         slots := [slot_a]\<rparr>,
      in_flight = [], stage = AwaitResource\<rparr>"

text \<open>
  After the list of the 11th was shown, the day changed to the 12th and that fetch failed;
  and after two overlapping fetches with a click between their settlements.
\<close>

definition stale :: config where
  "stale =
     \<lparr>ui = (init_state (Some ''R1'') None (Date 1762819200000))
        \<lparr>loadingResources := True, selectedDate := Some (Date 1762905600000),
         slots := [slot_a], error := Some ''Failed to load slots''\<rparr>,
      in_flight = [], stage = AwaitResource\<rparr>"

definition dangling :: config where
  "dangling =
     \<lparr>ui = (init_state (Some ''R1'') None (Date 1762819200000))
        \<lparr>loadingResources := True, selectedDate := Some (Date 1762905600000),
         slots := [slot_b], selectedSlotIds := {''a''}\<rparr>,
      in_flight = [], stage = AwaitResource\<rparr>"

text \<open>
  The component with its resources loaded, showing the list of the 11th with \<open>slot_a\<close>
  selected; the same after venue \<open>R2\<close> was picked, and after the 12th was picked.
\<close>

definition browsing :: config where
  "browsing =
     \<lparr>ui = showing\<lparr>resources := siblings, selectedResourceName := ''Court A''\<rparr>,
      in_flight = [], stage = ResIdle\<rparr>"

definition venue_moved :: config where
  "venue_moved =
     \<lparr>ui = showing\<lparr>resources := siblings, selectedResourceName := ''Court A'',
                   selectedResourceId := Some ''R2'', loadingSlots := True,
                   selectedSlotIds := {}\<rparr>,
      in_flight =
        [\<lparr>query = \<lparr>eq_resource_id = ''R2'', gte_start_time = 1762819200000,
                    lt_start_time = 1762905599999\<rparr>,
          captured_date = Date 1762819200000, captured_resources = siblings\<rparr>],
      stage = ResIdle\<rparr>"

definition day_moved :: config where
  "day_moved =
     \<lparr>ui = showing\<lparr>resources := siblings, selectedResourceName := ''Court A'',
                   selectedDate := Some (Date 1762905600000), loadingSlots := True,
                   selectedSlotIds := {}\<rparr>,
      in_flight = [fetch_12\<lparr>captured_resources := siblings\<rparr>],
      stage = ResIdle\<rparr>"

text \<open>The component opened with no venue, and the same after the 12th was picked.\<close>

definition no_venue :: config where
  "no_venue = init_config None None (Date 1762819200000)"

definition no_venue_12 :: config where
  "no_venue_12 =
     \<lparr>ui = (init_state None None (Date 1762819200000))
        \<lparr>selectedDate := Some (Date 1762905600000)\<rparr>,
      in_flight = [], stage = ResIdle\<rparr>"

section \<open>Properties\<close>

subsection \<open>Helper facts about the fold\<close>

lemma price_or_zero_simps:
  "price_or_zero None = 0" "price_or_zero (Some x) = x"
  by (simp_all add: price_or_zero_def)

lemma foldl_price_shift:
  "foldl (\<lambda>sum s. sum + price_or_zero (slot_price s)) a xs
     = a + foldl (\<lambda>sum s. sum + price_or_zero (slot_price s)) 0 xs"
proof (induction xs arbitrary: a)
  case Nil
  show ?case by simp
next
  case (Cons x xs)
  have "foldl (\<lambda>sum s. sum + price_or_zero (slot_price s)) a (x # xs)
          = foldl (\<lambda>sum s. sum + price_or_zero (slot_price s)) (a + price_or_zero (slot_price x)) xs"
    by simp
  also have "\<dots> = (a + price_or_zero (slot_price x))
          + foldl (\<lambda>sum s. sum + price_or_zero (slot_price s)) 0 xs"
    by (rule Cons.IH)
  also have "\<dots> = a + foldl (\<lambda>sum s. sum + price_or_zero (slot_price s)) 0 (x # xs)"
    using Cons.IH [of "0 + price_or_zero (slot_price x)"] by (simp add: add.assoc)
  finally show ?case .
qed

lemma total_Nil: "total [] sel = 0"
  by (simp add: total_def)

lemma total_Cons:
  "total (s # slts) sel =
     (if slot_id s \<in> sel then price_or_zero (slot_price s) else 0) + total slts sel"
  using foldl_price_shift [of "price_or_zero (slot_price s)" "filter (\<lambda>s. slot_id s \<in> sel) slts"]
  by (simp add: total_def)

lemma total_append: "total (xs @ ys) sel = total xs sel + total ys sel"
  by (induction xs) (simp_all add: total_Nil total_Cons add.assoc)

lemma total_snoc:
  "total (slts @ [s]) sel =
     total slts sel + (if slot_id s \<in> sel then price_or_zero (slot_price s) else 0)"
  by (simp add: total_append total_Cons total_Nil)

lemma total_index_sum:
  "total slts sel =
     (\<Sum>i \<in> {i. i < length slts \<and> slot_id (slts ! i) \<in> sel}. price_or_zero (slot_price (slts ! i)))"
proof (induction slts rule: rev_induct)
  case Nil
  show ?case by (simp add: total_Nil)
next
  case (snoc s slts)
  let ?n = "length slts"
  let ?f = "\<lambda>i. price_or_zero (slot_price ((slts @ [s]) ! i))"
  let ?old = "{i. i < ?n \<and> slot_id (slts ! i) \<in> sel}"
  have old_eq: "(\<Sum>i \<in> ?old. ?f i) = (\<Sum>i \<in> ?old. price_or_zero (slot_price (slts ! i)))"
    by (rule sum.cong) (simp_all add: nth_append)
  show ?case
  proof (cases "slot_id s \<in> sel")
    case True
    have "{i. i < length (slts @ [s]) \<and> slot_id ((slts @ [s]) ! i) \<in> sel} = insert ?n ?old"
      using True by (auto simp: nth_append less_Suc_eq)
    moreover have "finite ?old" "?n \<notin> ?old"
      by simp_all
    ultimately have "(\<Sum>i \<in> {i. i < length (slts @ [s]) \<and> slot_id ((slts @ [s]) ! i) \<in> sel}. ?f i)
        = ?f ?n + (\<Sum>i \<in> ?old. ?f i)"
      by simp
    then show ?thesis
      using True snoc.IH old_eq by (simp add: total_snoc)
  next
    case False
    have "{i. i < length (slts @ [s]) \<and> slot_id ((slts @ [s]) ! i) \<in> sel} = ?old"
      using False by (auto simp: nth_append less_Suc_eq)
    then show ?thesis
      using False snoc.IH old_eq by (simp add: total_snoc)
  qed
qed

lemma total_dangling:
  "sid \<notin> slot_id ` set slts \<Longrightarrow> total slts (insert sid sel) = total slts sel"
  by (induction slts) (auto simp: total_Nil total_Cons)

subsection \<open>The total\<close>

text \<open>
  Claim C1. For every slot list and every selection, the total is the sum of the prices
  (a missing price counting as \<open>0\<close>) over exactly the entries of the list whose identifier
  is selected; the total of the empty selection is \<open>0\<close>; and a selected identifier that
  no slot of the list carries adds nothing and raises nothing.
\<close>
theorem total_is_sum_over_selected:
  "total slts sel =
     (\<Sum>i \<in> {i. i < length slts \<and> slot_id (slts ! i) \<in> sel}. price_or_zero (slot_price (slts ! i)))
   \<and> total slts {} = 0
   \<and> (sid \<notin> slot_id ` set slts \<longrightarrow> total slts (insert sid sel) = total slts sel)"
proof (intro conjI impI)
  show "total slts sel =
     (\<Sum>i \<in> {i. i < length slts \<and> slot_id (slts ! i) \<in> sel}. price_or_zero (slot_price (slts ! i)))"
    by (rule total_index_sum)
  show "total slts {} = 0"
    by (simp add: total_def)
  show "total slts (insert sid sel) = total slts sel" if "sid \<notin> slot_id ` set slts"
    using that by (rule total_dangling)
qed

theorem total_is_sum_over_selected_witness:
  "''q'' \<notin> slot_id ` set [slot_a, slot_b]
   \<and> total [slot_a, slot_b] (insert ''q'' {''a''}) = 40
   \<and> total [slot_a, slot_b] {''a'', ''b''} = 105 / 2
   \<and> total [slot_a, slot_b] {} = 0"
  using total_is_sum_over_selected [of "[slot_a, slot_b]" "{''a''}" "''q''"]
  by (simp add: total_Cons total_Nil slot_a_def slot_b_def price_or_zero_simps)

text \<open>
  Claim C10. The total is a number for every slot list and selection, and a slot whose
  price is \<open>null\<close> or \<open>0\<close> adds exactly \<open>0\<close> to it, selected or not: the total is the
  same as without that slot.
\<close>
theorem falsy_price_adds_nothing:
  "slot_price s = None \<or> slot_price s = Some 0 \<Longrightarrow>
     total (xs @ s # ys) sel = total (xs @ ys) sel"
  by (auto simp: total_append total_Cons price_or_zero_simps)

theorem falsy_price_adds_nothing_witness:
  "slot_price slot_unpriced = None \<and> slot_id slot_unpriced \<in> {''a'', ''n''}
   \<and> total ([slot_a] @ slot_unpriced # []) {''a'', ''n''} = 40"
  using falsy_price_adds_nothing [of slot_unpriced "[slot_a]" "[]" "{''a'', ''n''}"]
  by (simp add: total_Cons total_Nil slot_a_def slot_unpriced_def price_or_zero_simps)

subsection \<open>Toggling\<close>

text \<open>
  Claim C6. Toggling a booked slot leaves the whole state as it was, whatever the
  selection held before: the selection is unchanged and no message is set.
\<close>
theorem toggle_booked_is_noop:
  "is_booked slot \<Longrightarrow> toggleSelect slot st = st"
  by (simp add: toggleSelect_def)

theorem toggle_booked_is_noop_witness:
  "is_booked slot_booked
   \<and> toggleSelect slot_booked showing = showing
   \<and> toggleSelect slot_booked (showing\<lparr>selectedSlotIds := {''c''}\<rparr>) = showing\<lparr>selectedSlotIds := {''c''}\<rparr>"
  using toggle_booked_is_noop [of slot_booked showing]
    toggle_booked_is_noop [of slot_booked "showing\<lparr>selectedSlotIds := {''c''}\<rparr>"]
  by (simp add: slot_booked_def)

text \<open>
  Claim C7. Toggling a slot that is not booked twice in a row gives back the state, and
  so the selection, that was there before.
\<close>
theorem toggle_twice_restores:
  "\<not> is_booked slot \<Longrightarrow> toggleSelect slot (toggleSelect slot st) = st"
proof -
  assume free: "\<not> is_booked slot"
  let ?x = "slot_id slot" and ?S = "selectedSlotIds st"
  show ?thesis
  proof (cases "?x \<in> ?S")
    case True
    then have "insert ?x (?S - {?x}) = ?S"
      by (rule insert_Diff)
    with True free show ?thesis
      by (simp add: toggleSelect_def)
  next
    case False
    then have "insert ?x ?S - {?x} = ?S"
      by simp
    with False free show ?thesis
      by (simp add: toggleSelect_def)
  qed
qed

theorem toggle_twice_restores_witness:
  "\<not> is_booked slot_a \<and> slot_id slot_a \<in> selectedSlotIds showing
   \<and> toggleSelect slot_a (toggleSelect slot_a showing) = showing
   \<and> \<not> is_booked slot_b \<and> slot_id slot_b \<notin> selectedSlotIds showing
   \<and> toggleSelect slot_b (toggleSelect slot_b showing) = showing"
  using toggle_twice_restores [of slot_a showing] toggle_twice_restores [of slot_b showing]
  by (simp add: slot_a_def slot_b_def showing_def)

subsection \<open>The resource resolver\<close>

text \<open>
  Claim C9. When the siblings of the starting resource have arrived, a selected resource
  that is set stays as it is, and only an unset one becomes the starting resource.
\<close>
theorem resolve_keeps_chosen_resource:
  "(truthy (selectedResourceId st) \<longrightarrow>
      selectedResourceId (siblings_settled initialRes (Data d) st) = selectedResourceId st)
   \<and> (\<not> truthy (selectedResourceId st) \<longrightarrow>
      selectedResourceId (siblings_settled initialRes (Data d) st) = Some (r_id initialRes))"
  by (simp add: siblings_settled_def or_else_def)

theorem resolve_keeps_chosen_resource_witness:
  "truthy (selectedResourceId (showing\<lparr>selectedResourceId := Some ''R2''\<rparr>))
   \<and> selectedResourceId (siblings_settled court_a (Data (Some siblings))
         (showing\<lparr>selectedResourceId := Some ''R2''\<rparr>)) = Some ''R2''
   \<and> \<not> truthy (selectedResourceId (showing\<lparr>selectedResourceId := None\<rparr>))
   \<and> selectedResourceId (siblings_settled court_a (Data (Some siblings))
         (showing\<lparr>selectedResourceId := None\<rparr>)) = Some ''R1''"
  using resolve_keeps_chosen_resource [of "showing\<lparr>selectedResourceId := Some ''R2''\<rparr>" court_a "Some siblings"]
    resolve_keeps_chosen_resource [of "showing\<lparr>selectedResourceId := None\<rparr>" court_a "Some siblings"]
  by (simp add: truthy_def court_a_def)

subsection \<open>Evaluating the sample data\<close>

lemmas sample_defs = slot_a_def slot_b_def slot_booked_def slot_unpriced_def slot_late_def
  showing_def opened_def court_a_def siblings_def fetch_11_def fetch_12_def chosen_def raced_def
  stale_def dangling_def browsing_def venue_moved_def day_moved_def no_venue_def no_venue_12_def

lemmas model_defs = init_config_def init_state_def loadResources_begin_def loadSlots_begin_def
  loadSlots_settle_def run_loadSlots_def pick_venue_def pick_day_def slots_request_def
  toISOString_def startOfDay_def endOfDay_def truthy_def or_else_def message_of_def
  resource_settled_def siblings_settled_def toggleSelect_def

lemma opened_eq:
  "opened = \<lparr>ui = (init_state (Some ''R1'') None (Date 1762819200000))
                \<lparr>loadingResources := True, loadingSlots := True\<rparr>,
             in_flight = [fetch_11], stage = AwaitResource\<rparr>"
  by (simp add: sample_defs model_defs Let_def)

subsection \<open>The reset of the selection\<close>

text \<open>
  The guard of \<open>loadSlots\<close> stands before the reset, so a call without a venue resets
  nothing. But the venue is set by the props, the URL, the resolver or a pick, and never
  unset; and while none is set no slot has been fetched, no row shown and none selected.
\<close>

lemma loadSlots_begin_skip:
  "\<not> truthy (selectedResourceId st) \<Longrightarrow> loadSlots_begin st = (st, None)"
  by (simp add: loadSlots_begin_def)

lemma loadSlots_begin_keeps:
  "selectedDate (fst (loadSlots_begin st)) = selectedDate st"
  "selectedResourceId (fst (loadSlots_begin st)) = selectedResourceId st"
  "slots (fst (loadSlots_begin st)) = slots st"
  by (auto simp: loadSlots_begin_def Let_def split: option.splits sum.splits)

lemma loadSlots_begin_resets:
  "truthy (selectedResourceId st) \<Longrightarrow> selectedDate st \<noteq> None \<Longrightarrow>
     selectedSlotIds (fst (loadSlots_begin st)) = {}"
  by (auto simp: loadSlots_begin_def truthy_def Let_def split: option.splits sum.splits)

lemma unvenued_empty_run_loadSlots:
  assumes "unvenued_empty (c\<lparr>ui := st\<rparr>)"
  shows "unvenued_empty (run_loadSlots (loadSlots_begin st) c)"
proof (cases "truthy (selectedResourceId st)")
  case True
  with assms show ?thesis
    by (simp add: unvenued_empty_def run_loadSlots_def loadSlots_begin_keeps)
next
  case False
  with assms show ?thesis
    by (simp add: unvenued_empty_def run_loadSlots_def loadSlots_begin_skip)
qed

lemma unvenued_empty_step:
  assumes "unvenued_empty c" and "step e c = Some c'" and "venues_named [e]"
  shows "unvenued_empty c'"
proof (cases e)
  case (PickVenue v)
  show ?thesis
  proof (cases "selectedResourceId (ui c) = Some v")
    case True
    with PickVenue assms show ?thesis
      by (auto simp: pick_venue_def run_loadSlots_def unvenued_empty_def split: if_splits)
  next
    case False
    from assms(1,3) PickVenue
    have "unvenued_empty (c\<lparr>ui := (ui c)\<lparr>selectedResourceId := Some v\<rparr>\<rparr>)"
      by (simp add: unvenued_empty_def truthy_def)
    with False PickVenue assms(2) show ?thesis
      using unvenued_empty_run_loadSlots
        [where c = c and st = "(ui c)\<lparr>selectedResourceId := Some v\<rparr>"]
      by (auto simp: pick_venue_def split: if_splits)
  qed
next
  case (PickDay d)
  show ?thesis
  proof (cases d)
    case None
    with PickDay assms show ?thesis
      by (auto simp: pick_day_def run_loadSlots_def unvenued_empty_def)
  next
    case (Some t)
    from assms(1) have "unvenued_empty (c\<lparr>ui := (ui c)\<lparr>selectedDate := Some (Date t)\<rparr>\<rparr>)"
      by (simp add: unvenued_empty_def)
    with Some PickDay assms(2) show ?thesis
      using unvenued_empty_run_loadSlots
        [where c = c and st = "(ui c)\<lparr>selectedDate := Some (Date t)\<rparr>"]
      by (auto simp: pick_day_def)
  qed
next
  case (ClickRow i)
  with assms show ?thesis
    by (auto simp: unvenued_empty_def toggleSelect_def split: if_splits)
next
  case (SlotsSettled i resp)
  with assms show ?thesis
    by (auto simp: unvenued_empty_def loadSlots_settle_def Let_def
        split: if_splits response.splits option.splits)
next
  case (ResourceSettled resp)
  with assms show ?thesis
    by (auto simp: resource_settled_def unvenued_empty_def Let_def
        split: res_stage.splits response.splits option.splits)
next
  case (SiblingsSettled resp)
  show ?thesis
  proof (cases "stage c")
    case (AwaitSiblings x)
    show ?thesis
    proof (cases resp)
      case (Failure err)
      with AwaitSiblings SiblingsSettled assms show ?thesis
        by (auto simp: siblings_settled_def unvenued_empty_def)
    next
      case (Data d)
      from assms(1)
      have "unvenued_empty (c\<lparr>stage := ResIdle, ui := siblings_settled x resp (ui c)\<rparr>)"
        using Data by (auto simp: siblings_settled_def unvenued_empty_def or_else_def)
      with Data AwaitSiblings SiblingsSettled assms(2) show ?thesis
        using unvenued_empty_run_loadSlots
          [where c = "c\<lparr>stage := ResIdle\<rparr>" and st = "siblings_settled x resp (ui c)"]
        by (auto simp: Let_def)
    qed
  qed (use SiblingsSettled assms in auto)
qed

lemma venues_named_Cons: "venues_named (e # es) \<longleftrightarrow> venues_named [e] \<and> venues_named es"
  by (cases e) simp_all

lemma unvenued_empty_run:
  "unvenued_empty c \<Longrightarrow> venues_named es \<Longrightarrow> run es c = Some c' \<Longrightarrow> unvenued_empty c'"
proof (induction es arbitrary: c)
  case Nil
  then show ?case by simp
next
  case (Cons e es)
  from Cons.prems(3) obtain c1 where s: "step e c = Some c1" and r: "run es c1 = Some c'"
    by (auto split: option.splits)
  from Cons.prems(2) have one: "venues_named [e]" and rest: "venues_named es"
    using venues_named_Cons [of e es] by simp_all
  from Cons.prems(1) s one have "unvenued_empty c1"
    by (rule unvenued_empty_step)
  from this rest r show ?case
    by (rule Cons.IH)
qed

lemma unvenued_empty_init: "unvenued_empty (init_config p u d)"
proof -
  let ?st = "fst (loadResources_begin (init_state p u d))"
  have sel: "selectedResourceId ?st = selectedResourceId (init_state p u d)"
    and other: "selectedDate ?st = Some d" "selectedSlotIds ?st = {}" "slots ?st = []"
    by (simp_all add: loadResources_begin_def init_state_def)
  show ?thesis
  proof (cases "truthy (selectedResourceId ?st)")
    case True
    with other show ?thesis
      by (simp add: init_config_def Let_def run_loadSlots_def unvenued_empty_def
          loadSlots_begin_keeps)
  next
    case False
    with other show ?thesis
      by (simp add: init_config_def Let_def run_loadSlots_def unvenued_empty_def
          loadSlots_begin_skip)
  qed
qed

text \<open>
  Claim C2. In every state the component reaches, when the venue changes to another one
  or a day is picked, the selection is empty at once, whatever it held before, while the
  slot list is still the previous one: the reset comes before the result of the new fetch
  is applied. This holds also when no venue is set at the change of day, where the skip
  on missing input leaves the slot list alone and the selection is empty all the same.
\<close>

theorem change_empties_selection:
  "run es (init_config p u d) = Some c \<Longrightarrow> venues_named es \<Longrightarrow>
     (v \<noteq> [] \<and> selectedResourceId (ui c) \<noteq> Some v \<and> step (PickVenue v) c = Some c' \<longrightarrow>
        selectedSlotIds (ui c') = {} \<and> slots (ui c') = slots (ui c)
        \<and> selectedResourceId (ui c') = Some v)
     \<and> (step (PickDay (Some t)) c = Some c'' \<longrightarrow>
        selectedSlotIds (ui c'') = {} \<and> slots (ui c'') = slots (ui c)
        \<and> selectedDate (ui c'') = Some (Date t))"
proof -
  assume reach: "run es (init_config p u d) = Some c" and named: "venues_named es"
  have inv: "unvenued_empty c"
    using unvenued_empty_init named reach by (rule unvenued_empty_run)
  then have dated: "selectedDate (ui c) \<noteq> None"
    by (simp add: unvenued_empty_def)
  have venue: "selectedSlotIds (ui c') = {} \<and> slots (ui c') = slots (ui c)
        \<and> selectedResourceId (ui c') = Some v"
    if "v \<noteq> []" "selectedResourceId (ui c) \<noteq> Some v" "step (PickVenue v) c = Some c'"
  proof -
    let ?st = "(ui c)\<lparr>selectedResourceId := Some v\<rparr>"
    from that have c': "c' = run_loadSlots (loadSlots_begin ?st) c"
      by (auto simp: pick_venue_def split: if_splits)
    have "truthy (selectedResourceId ?st)" "selectedDate ?st \<noteq> None"
      using that(1) dated by (simp_all add: truthy_def)
    then have "selectedSlotIds (fst (loadSlots_begin ?st)) = {}"
      by (rule loadSlots_begin_resets)
    then show ?thesis
      by (simp add: c' run_loadSlots_def loadSlots_begin_keeps)
  qed
  have day: "selectedSlotIds (ui c'') = {} \<and> slots (ui c'') = slots (ui c)
        \<and> selectedDate (ui c'') = Some (Date t)"
    if "step (PickDay (Some t)) c = Some c''"
  proof -
    let ?st = "(ui c)\<lparr>selectedDate := Some (Date t)\<rparr>"
    from that have c'': "c'' = run_loadSlots (loadSlots_begin ?st) c"
      by (auto simp: pick_day_def)
    have "selectedSlotIds (fst (loadSlots_begin ?st)) = {}"
    proof (cases "truthy (selectedResourceId (ui c))")
      case True
      then have "truthy (selectedResourceId ?st)" "selectedDate ?st \<noteq> None"
        by simp_all
      then show ?thesis
        by (rule loadSlots_begin_resets)
    next
      case False
      with inv have "selectedSlotIds (ui c) = {}"
        by (simp add: unvenued_empty_def)
      with False show ?thesis
        by (simp add: loadSlots_begin_skip)
    qed
    then show ?thesis
      by (simp add: c'' run_loadSlots_def loadSlots_begin_keeps)
  qed
  from venue day show ?thesis
    by blast
qed

theorem change_empties_selection_witness:
  "run [SlotsSettled 0 (Data (Some [slot_a, slot_booked])), ResourceSettled (Data (Some court_a)),
        SiblingsSettled (Data (Some siblings)),
        SlotsSettled 0 (Data (Some [slot_a, slot_booked])), ClickRow 0] opened = Some browsing
   \<and> venues_named [SlotsSettled 0 (Data (Some [slot_a, slot_booked])),
        ResourceSettled (Data (Some court_a)), SiblingsSettled (Data (Some siblings)),
        SlotsSettled 0 (Data (Some [slot_a, slot_booked])), ClickRow 0]
   \<and> selectedSlotIds (ui browsing) = {''a''}
   \<and> selectedResourceId (ui browsing) \<noteq> Some ''R2''
   \<and> step (PickVenue ''R2'') browsing = Some venue_moved
   \<and> selectedSlotIds (ui venue_moved) = {}
   \<and> slots (ui venue_moved) = [slot_a, slot_booked]
   \<and> step (PickDay (Some 1762905600000)) browsing = Some day_moved
   \<and> selectedSlotIds (ui day_moved) = {}
   \<and> slots (ui day_moved) = [slot_a, slot_booked]
   \<and> run [] no_venue = Some no_venue
   \<and> \<not> truthy (selectedResourceId (ui no_venue))
   \<and> step (PickDay (Some 1762905600000)) no_venue = Some no_venue_12
   \<and> selectedSlotIds (ui no_venue_12) = {}"
  using change_empties_selection
    [of "[SlotsSettled 0 (Data (Some [slot_a, slot_booked])), ResourceSettled (Data (Some court_a)),
          SiblingsSettled (Data (Some siblings)),
          SlotsSettled 0 (Data (Some [slot_a, slot_booked])), ClickRow 0]"
        "Some ''R1''" None "Date 1762819200000" browsing "''R2''" venue_moved
        1762905600000 day_moved, folded opened_def]
    change_empties_selection
    [of "[]" None None "Date 1762819200000" no_venue "''R2''" venue_moved
        1762905600000 no_venue_12, folded no_venue_def]
  by (simp add: opened_eq) (simp add: sample_defs model_defs Let_def)

subsection \<open>Overlapping fetches\<close>

text \<open>
  Claim C3, as stated, fails. From \<open>opened\<close> the day is changed to the 12th while the fetch
  for the 11th is in flight; the store answers the later fetch first, with \<open>slot_b\<close>, and
  the earlier one last, with \<open>slot_a\<close>. The list shown at the end is the answer to the
  earlier fetch, whose captured date is no longer the selected one.
\<close>

theorem earlier_fetch_overwrites_later:
  "map_option in_flight (run [PickDay (Some 1762905600000)] opened) = Some [fetch_11, fetch_12]
   \<and> select_slots [slot_a, slot_b] (query fetch_11) = [slot_a]
   \<and> select_slots [slot_a, slot_b] (query fetch_12) = [slot_b]
   \<and> run [PickDay (Some 1762905600000), SlotsSettled 1 (Data (Some [slot_b])),
           SlotsSettled 0 (Data (Some [slot_a]))] opened = Some raced
   \<and> slots (ui raced) = [slot_a]
   \<and> slots (ui raced) \<noteq> [slot_b]
   \<and> selectedDate (ui raced) = Some (Date 1762905600000)
   \<and> captured_date fetch_11 \<noteq> Date 1762905600000"
  by (simp add: opened_eq) (simp add: sample_defs model_defs Let_def matches_def select_slots_def)

lemma run_append:
  "run (es @ fs) c = (case run es c of None \<Rightarrow> None | Some c' \<Rightarrow> run fs c')"
  by (induction es arbitrary: c) (simp_all split: option.splits)

text \<open>
  Claim C3, amended. A slot fetch in flight can always settle, and when it settles with
  data that data (or the empty list for \<open>null\<close>) becomes the slot list, whether or not the
  resource and date it captured are still the current ones: nothing is discarded, so of
  overlapping fetches the one that completes last is the one shown.
\<close>

theorem last_settled_fetch_is_shown:
  "(i < length (in_flight c) \<longrightarrow> step (SlotsSettled i (Data d)) c \<noteq> None)
   \<and> (run (es @ [SlotsSettled i (Data d)]) c = Some c' \<longrightarrow>
        slots (ui c') = (case d of None \<Rightarrow> [] | Some rows \<Rightarrow> rows))"
  by (auto simp: run_append loadSlots_settle_def Let_def split: option.splits if_splits)

theorem last_settled_fetch_is_shown_witness:
  "0 < length (in_flight opened)
   \<and> step (SlotsSettled 0 (Data (Some [slot_a]))) opened \<noteq> None
   \<and> run ([PickDay (Some 1762905600000), SlotsSettled 1 (Data (Some [slot_b]))]
          @ [SlotsSettled 0 (Data (Some [slot_a]))]) opened = Some raced
   \<and> slots (ui raced) = [slot_a]"
  using last_settled_fetch_is_shown [of 0 opened "Some [slot_a]"
      "[PickDay (Some 1762905600000), SlotsSettled 1 (Data (Some [slot_b]))]" raced]
  by (simp add: opened_eq) (simp add: sample_defs model_defs Let_def)

subsection \<open>The day interval of the query\<close>

lemma spec_day_interval_width:
  "spec_day_interval t x \<longleftrightarrow> t - t mod 86400000 \<le> x \<and> x < t - t mod 86400000 + 86400000"
  by (simp add: spec_day_interval_def) linarith

lemma slots_request_range:
  "slots_request rid (Date t) = Inr q \<Longrightarrow>
     matches q s \<longleftrightarrow>
       resource_id s = rid \<and> t - t mod 86400000 \<le> start_time s
       \<and> start_time s < t - t mod 86400000 + 86399999"
  by (auto simp: slots_request_def toISOString_def startOfDay_def endOfDay_def matches_def)

text \<open>
  Claim C4: the slots requested are those that start in
  \<open>[startOfDay(date), startOfDay(date + 1))\<close>, the final moment of the day included. The
  code asks for \<open>start_time < endOfDay(date)\<close>, and \<open>endOfDay\<close> is 23:59:59.999 of the same
  day: for venue \<open>R1\<close> and 11 November 2025 the slot that starts at 23:59:59.999 lies in
  the interval of the claim, is not matched by the query, and is missing from the answer.
\<close>

theorem query_misses_last_millisecond:
  "slots_request ''R1'' (Date 1762819200000) = Inr (query fetch_11)
   \<and> resource_id slot_late = ''R1''
   \<and> spec_day_interval 1762819200000 (start_time slot_late)
   \<and> \<not> matches (query fetch_11) slot_late
   \<and> select_slots [slot_late, slot_a] (query fetch_11) = [slot_a]"
  by (simp add: sample_defs model_defs spec_day_interval_def matches_def select_slots_def)

subsection \<open>A failed fetch\<close>

text \<open>
  Claim C5, as stated, fails. The fetch for the 11th brings \<open>slot_a\<close>, the day is changed to
  the 12th and that fetch fails: the list still shows \<open>slot_a\<close>, with the message.
\<close>

theorem failed_fetch_leaves_stale_list:
  "run [SlotsSettled 0 (Data (Some [slot_a])), PickDay (Some 1762905600000),
        SlotsSettled 0 (Failure NotAnError)] opened = Some stale
   \<and> slots (ui stale) = [slot_a]
   \<and> slots (ui stale) \<noteq> []
   \<and> error (ui stale) = Some ''Failed to load slots''"
  by (simp add: opened_eq) (simp add: sample_defs model_defs Let_def)

text \<open>
  Claim C5, amended. When a slot fetch fails the slot list is left at its previous value
  (empty only if it was empty), not emptied. The failure changes two cells and no other:
  the display message becomes the message of the \<open>Error\<close>, else the fixed text, and the
  loading flag is lowered; the selection, too, is what it was when the failure arrived.
  Every fetch in flight can settle so, and the step returns a state: nothing is thrown
  onward.
\<close>

theorem failed_fetch_keeps_slot_list:
  "loadSlots_settle f (Failure e) st
     = st\<lparr>error := Some (message_of e ''Failed to load slots''), loadingSlots := False\<rparr>
   \<and> slots (loadSlots_settle f (Failure e) st) = slots st
   \<and> selectedSlotIds (loadSlots_settle f (Failure e) st) = selectedSlotIds st
   \<and> error (loadSlots_settle f (Failure e) st) = Some (message_of e ''Failed to load slots'')
   \<and> loadingSlots (loadSlots_settle f (Failure e) st) = False
   \<and> (i < length (in_flight c) \<longrightarrow>
        step (SlotsSettled i (Failure e)) c
          = Some (c\<lparr>ui := (ui c)\<lparr>error := Some (message_of e ''Failed to load slots''),
                                  loadingSlots := False\<rparr>,
                    in_flight := take i (in_flight c) @ drop (Suc i) (in_flight c)\<rparr>))"
  by (simp add: loadSlots_settle_def)

theorem failed_fetch_keeps_slot_list_witness:
  "0 < length (in_flight day_moved)
   \<and> step (SlotsSettled 0 (Failure (ErrorObj ''offline''))) day_moved
       = Some (day_moved\<lparr>ui := (ui day_moved)\<lparr>error := Some ''offline'', loadingSlots := False\<rparr>,
                         in_flight := []\<rparr>)
   \<and> slots (loadSlots_settle fetch_12 (Failure NotAnError) showing) = [slot_a, slot_booked]
   \<and> selectedSlotIds (loadSlots_settle fetch_12 (Failure NotAnError) showing) = {''a''}
   \<and> error (loadSlots_settle fetch_12 (Failure NotAnError) showing) = Some ''Failed to load slots''"
  using failed_fetch_keeps_slot_list [of fetch_12 NotAnError showing 0 day_moved]
    failed_fetch_keeps_slot_list [of fetch_12 "ErrorObj ''offline''" showing 0 day_moved]
  by (simp add: sample_defs model_defs)

subsection \<open>The selection invariant\<close>

text \<open>
  Claim C8, as stated, fails. The day is changed while the first fetch is in flight; the
  first fetch settles and lowers the loading flag, so its row can be clicked; then the
  second fetch settles and replaces the list. The selected identifier \<open>a\<close> is that of no
  slot of the list shown.
\<close>

theorem overlap_leaves_dangling_selection:
  "run [PickDay (Some 1762905600000), SlotsSettled 0 (Data (Some [slot_a])), ClickRow 0,
        SlotsSettled 0 (Data (Some [slot_b]))] opened = Some dangling
   \<and> selectedSlotIds (ui dangling) = {''a''}
   \<and> slots (ui dangling) = [slot_b]
   \<and> \<not> selection_valid (ui dangling)"
  by (simp add: opened_eq) (simp add: sample_defs model_defs Let_def selection_valid_def)

lemma loadSlots_begin_cases:
  "loadSlots_begin st = (st, None)
   \<or> (\<exists>st' f. loadSlots_begin st = (st', Some f) \<and> loadingSlots st'
        \<and> selectedSlotIds st' = {} \<and> selectedDate st' = selectedDate st
        \<and> selectedDate st \<noteq> Some InvalidDate)
   \<or> (\<exists>st'. loadSlots_begin st = (st', None)
        \<and> selectedSlotIds st' = {} \<and> selectedDate st' = selectedDate st
        \<and> selectedDate st = Some InvalidDate)"
  by (cases "selectedDate st"; cases "selectedResourceId st")
    (auto simp: loadSlots_begin_def slots_request_def toISOString_def startOfDay_def
      endOfDay_def Let_def split: jsdate.splits)

lemma quiet_run_loadSlots:
  assumes "quiet (c\<lparr>ui := st\<rparr>)"
    and "length (in_flight (run_loadSlots (loadSlots_begin st) c)) \<le> 1"
  shows "quiet (run_loadSlots (loadSlots_begin st) c)"
  using loadSlots_begin_cases [of st] assms
  by (auto simp: quiet_def run_loadSlots_def selection_valid_def)

lemma quiet_toggle:
  assumes "quiet c" and "\<not> loadingSlots (ui c)" and "i < length (slots (ui c))"
  shows "quiet (c\<lparr>ui := toggleSelect (slots (ui c) ! i) (ui c)\<rparr>)"
proof -
  from assms have idle: "in_flight c = []"
    by (auto simp: quiet_def)
  from assms have row: "slots (ui c) ! i \<in> set (slots (ui c))"
    by simp
  from assms have "selection_valid (ui c)"
    by (simp add: quiet_def)
  with row have "selection_valid (toggleSelect (slots (ui c) ! i) (ui c))"
    by (auto simp: selection_valid_def toggleSelect_def Let_def split: if_splits)
  moreover have "selectedDate (toggleSelect (slots (ui c) ! i) (ui c)) = selectedDate (ui c)"
    by (simp add: toggleSelect_def)
  ultimately show ?thesis
    using idle by (simp add: quiet_def)
qed

lemma quiet_settle:
  assumes "quiet c" and "i < length (in_flight c)" and "length (in_flight c) \<le> 1"
  shows "quiet (c\<lparr>ui := loadSlots_settle (in_flight c ! i) resp (ui c),
                  in_flight := take i (in_flight c) @ drop (Suc i) (in_flight c)\<rparr>)"
proof -
  from assms have "i = 0" and one: "length (in_flight c) = 1"
    by simp_all
  then have gone: "take i (in_flight c) @ drop (Suc i) (in_flight c) = []"
    by simp
  from assms have "selectedSlotIds (ui c) = {}"
    by (auto simp: quiet_def)
  then have "selectedSlotIds (loadSlots_settle (in_flight c ! i) resp (ui c)) = {}"
    by (simp add: loadSlots_settle_def Let_def split: response.splits option.splits)
  then show ?thesis
    using gone by (simp add: quiet_def selection_valid_def)
qed

lemma quiet_step:
  assumes "quiet c" and "length (in_flight c) \<le> 1" and "step e c = Some c'"
    and "length (in_flight c') \<le> 1"
  shows "quiet c'"
proof (cases e)
  case (PickVenue v)
  show ?thesis
  proof (cases "selectedResourceId (ui c) = Some v")
    case True
    with PickVenue assms show ?thesis
      by (auto simp: pick_venue_def run_loadSlots_def quiet_def split: if_splits)
  next
    case False
    from assms(1) have "quiet (c\<lparr>ui := (ui c)\<lparr>selectedResourceId := Some v\<rparr>\<rparr>)"
      by (simp add: quiet_def selection_valid_def)
    with False PickVenue assms(3,4) show ?thesis
      using quiet_run_loadSlots [where c = c and st = "(ui c)\<lparr>selectedResourceId := Some v\<rparr>"]
      by (auto simp: pick_venue_def split: if_splits)
  qed
next
  case (PickDay d)
  show ?thesis
  proof (cases d)
    case None
    with PickDay assms show ?thesis
      by (auto simp: pick_day_def run_loadSlots_def quiet_def)
  next
    case (Some t)
    from assms(1,2) have "quiet (c\<lparr>ui := (ui c)\<lparr>selectedDate := Some (Date t)\<rparr>\<rparr>)"
      by (simp add: quiet_def selection_valid_def)
    with Some PickDay assms(3,4) show ?thesis
      using quiet_run_loadSlots [where c = c and st = "(ui c)\<lparr>selectedDate := Some (Date t)\<rparr>"]
      by (auto simp: pick_day_def)
  qed
next
  case (ClickRow i)
  with assms show ?thesis
    using quiet_toggle [of c i] by (auto split: if_splits)
next
  case (SlotsSettled i resp)
  with assms show ?thesis
    using quiet_settle [of c i resp] by (auto split: if_splits)
next
  case (ResourceSettled resp)
  with assms show ?thesis
    by (auto simp: resource_settled_def quiet_def selection_valid_def Let_def
        split: res_stage.splits response.splits option.splits)
next
  case (SiblingsSettled resp)
  show ?thesis
  proof (cases "stage c")
    case (AwaitSiblings x)
    show ?thesis
    proof (cases resp)
      case (Failure err)
      with AwaitSiblings SiblingsSettled assms show ?thesis
        by (auto simp: siblings_settled_def quiet_def selection_valid_def)
    next
      case (Data d)
      from assms(1) have "quiet (c\<lparr>stage := ResIdle, ui := siblings_settled x resp (ui c)\<rparr>)"
        using Data by (simp add: siblings_settled_def quiet_def selection_valid_def)
      with Data AwaitSiblings SiblingsSettled assms(3,4) show ?thesis
        using quiet_run_loadSlots [where c = "c\<lparr>stage := ResIdle\<rparr>" and st = "siblings_settled x resp (ui c)"]
        by (auto simp: Let_def)
    qed
  qed (use SiblingsSettled assms in auto)
qed

lemma overlap_free_now: "overlap_free es c \<Longrightarrow> length (in_flight c) \<le> 1"
  by (cases es) simp_all

lemma quiet_run:
  "quiet c \<Longrightarrow> overlap_free es c \<Longrightarrow> run es c = Some c' \<Longrightarrow> quiet c'"
proof (induction es arbitrary: c)
  case Nil
  then show ?case by simp
next
  case (Cons e es)
  from Cons.prems(3) obtain c1 where s: "step e c = Some c1" and r: "run es c1 = Some c'"
    by (auto split: option.splits)
  from Cons.prems(2) s have free: "overlap_free es c1" and now: "length (in_flight c) \<le> 1"
    by simp_all
  from free have "length (in_flight c1) \<le> 1"
    by (rule overlap_free_now)
  with Cons.prems(1) now s have "quiet c1"
    by (rule quiet_step)
  from this free r show ?case
    by (rule Cons.IH)
qed

lemma quiet_init: "quiet (init_config p u d)"
  using loadSlots_begin_cases [of "fst (loadResources_begin (init_state p u d))"]
  by (auto simp: init_config_def run_loadSlots_def quiet_def selection_valid_def Let_def
      loadResources_begin_def init_state_def)

text \<open>
  Claim C8, amended. In every state reached from the first render by venue changes, day
  changes, arrivals of resources, settlements of slot fetches and clicks on rows, in a
  run in which at most one slot fetch is in flight at any time, every selected identifier
  is that of a slot of the current list that is not booked.
\<close>

theorem selection_valid_without_overlap:
  "run es (init_config p u d) = Some c \<Longrightarrow> overlap_free es (init_config p u d) \<Longrightarrow>
     selection_valid (ui c)"
  using quiet_run [OF quiet_init] by (auto simp: quiet_def)

theorem selection_valid_without_overlap_witness:
  "run [SlotsSettled 0 (Data (Some [slot_a, slot_booked])), ClickRow 0, ClickRow 1] opened
     = Some chosen
   \<and> overlap_free [SlotsSettled 0 (Data (Some [slot_a, slot_booked])), ClickRow 0, ClickRow 1] opened
   \<and> selectedSlotIds (ui chosen) = {''a''}
   \<and> selection_valid (ui chosen)"
  using selection_valid_without_overlap
    [of "[SlotsSettled 0 (Data (Some [slot_a, slot_booked])), ClickRow 0, ClickRow 1]"
        "Some ''R1''" None "Date 1762819200000" chosen, folded opened_def]
  by (simp add: opened_eq) (simp add: sample_defs model_defs Let_def)

end
